theory Spec2Isabelle
  imports Main
begin

section \<open>Python values and exceptions\<close>

text \<open>
  The wrapper in \<^verbatim>\<open>src/sparc/client/services/pennsieve.py\<close> is untyped Python that
  moves parsed JSON around. A value is \<^verbatim>\<open>None\<close>, a boolean, an integer, a string, a list
  or a dictionary with string keys (kept as an association list in insertion order, the
  first binding of a key being the one a lookup finds). Floating point numbers are outside
  the model.
\<close>

datatype pyval =
    PNone
  | PBool bool
  | PInt int
  | PStr string
  | PList "pyval list"
  | PDict "(string \<times> pyval) list"

text \<open>
  The exceptions the wrapper can end with. \<open>AssertionError\<close> carries the message of the
  \<^verbatim>\<open>assert\<close> statement; \<open>Raised\<close> stands for whatever the agent or the HTTP library
  raises.
\<close>

datatype pyerr =
    KeyError
  | IndexError
  | TypeError
  | AttributeError
  | AssertionError string
  | Raised string

type_synonym 'a res = "pyerr + 'a"

subsection \<open>Subscripts, \<^verbatim>\<open>dict.get\<close>, iteration, concatenation\<close>

text \<open>\<^verbatim>\<open>x[k]\<close> with a string \<open>k\<close>: only a dictionary can be subscripted by a string.\<close>

fun getitem :: "pyval \<Rightarrow> string \<Rightarrow> pyval res" where
  "getitem (PDict d) k = (case map_of d k of None \<Rightarrow> Inl KeyError | Some v \<Rightarrow> Inr v)"
| "getitem _ k = Inl TypeError"

text \<open>\<^verbatim>\<open>x[0]\<close>: the first element of a list or string; a dictionary has no key \<open>0\<close>.\<close>

fun getitem0 :: "pyval \<Rightarrow> pyval res" where
  "getitem0 (PList []) = Inl IndexError"
| "getitem0 (PList (x # xs)) = Inr x"
| "getitem0 (PStr []) = Inl IndexError"
| "getitem0 (PStr (c # cs)) = Inr (PStr [c])"
| "getitem0 (PDict d) = Inl KeyError"
| "getitem0 _ = Inl TypeError"

text \<open>\<^verbatim>\<open>x.get(k)\<close>: a missing key gives \<^verbatim>\<open>None\<close>; only dictionaries have the method.\<close>

fun py_get :: "pyval \<Rightarrow> string \<Rightarrow> pyval res" where
  "py_get (PDict d) k = Inr (case map_of d k of None \<Rightarrow> PNone | Some v \<Rightarrow> v)"
| "py_get _ k = Inl AttributeError"

text \<open>
  \<^verbatim>\<open>for x in v\<close>: a list yields its elements, a dictionary its keys, a string its
  characters; nothing else in the model is iterable.
\<close>

fun py_iter :: "pyval \<Rightarrow> pyval list res" where
  "py_iter (PList xs) = Inr xs"
| "py_iter (PDict d) = Inr (map (\<lambda>kv. PStr (fst kv)) d)"
| "py_iter (PStr s) = Inr (map (\<lambda>c. PStr [c]) s)"
| "py_iter _ = Inl TypeError"

text \<open>\<^verbatim>\<open>"literal" + v\<close>: a string is concatenated only with a string.\<close>

fun str_add :: "string \<Rightarrow> pyval \<Rightarrow> pyval res" where
  "str_add a (PStr b) = Inr (PStr (a @ b))"
| "str_add a _ = Inl TypeError"

text \<open>A comprehension or \<^verbatim>\<open>list(map(f, xs))\<close> stops at the first element that raises.\<close>

fun map_res :: "('a \<Rightarrow> 'b res) \<Rightarrow> 'a list \<Rightarrow> 'b list res" where
  "map_res f [] = Inr []"
| "map_res f (x # xs) =
     (case f x of
        Inl e \<Rightarrow> Inl e
      | Inr y \<Rightarrow> (case map_res f xs of Inl e \<Rightarrow> Inl e | Inr ys \<Rightarrow> Inr (y # ys)))"

subsection \<open>Strings: \<^verbatim>\<open>split\<close>, \<^verbatim>\<open>join\<close>, \<^verbatim>\<open>os.path.splitext\<close>\<close>

text \<open>
  \<^verbatim>\<open>s.split(sep)\<close> for a one-character separator: every occurrence of the separator ends
  a segment, so the result has one more segment than \<open>s\<close> has separators and is never empty.
\<close>

fun py_split :: "char \<Rightarrow> string \<Rightarrow> string list" where
  "py_split sep [] = [[]]"
| "py_split sep (c # cs) =
     (if c = sep then [] # py_split sep cs
      else (case py_split sep cs of [] \<Rightarrow> [[c]] | w # ws \<Rightarrow> (c # w) # ws))"

text \<open>\<^verbatim>\<open>sep.join(xs)\<close>.\<close>

fun py_join :: "string \<Rightarrow> string list \<Rightarrow> string" where
  "py_join sep [] = []"
| "py_join sep [x] = x"
| "py_join sep (x # y # ys) = x @ sep @ py_join sep (y # ys)"

text \<open>
  The expression \<^verbatim>\<open>"/".join(u.split("/")[5:])\<close>, which the source writes out twice
  (in \<^verbatim>\<open>list_filenames\<close> and in \<^verbatim>\<open>download_file\<close>).
\<close>

definition uri_path :: "string \<Rightarrow> string" where
  "uri_path u = py_join ''/'' (drop 5 (py_split CHR ''/'' u))"

text \<open>
  \<^verbatim>\<open>os.path.splitext\<close> (POSIX): the extension starts at the last dot of the last path
  component, unless that component has only dots before it. \<open>rfind\<close> is \<^verbatim>\<open>str.rfind\<close>
  for one character, \<open>-1\<close> when it does not occur.
\<close>

fun rfind :: "char \<Rightarrow> string \<Rightarrow> int" where
  "rfind c [] = -1"
| "rfind c (x # xs) =
     (let r = rfind c xs in if 0 \<le> r then r + 1 else if x = c then 0 else -1)"

definition splitext_str :: "string \<Rightarrow> string \<times> string" where
  "splitext_str p =
     (let sepIndex = rfind CHR ''/'' p; dotIndex = rfind CHR ''.'' p
      in if dotIndex > sepIndex \<and>
            list_ex (\<lambda>c. c \<noteq> CHR ''.'')
              (take (nat (dotIndex - (sepIndex + 1))) (drop (nat (sepIndex + 1)) p))
         then (take (nat dotIndex) p, drop (nat dotIndex) p)
         else (p, []))"

text \<open>Applied to anything but a string, \<^verbatim>\<open>os.path.splitext\<close> raises \<^verbatim>\<open>TypeError\<close>.\<close>

fun splitext :: "pyval \<Rightarrow> (string \<times> string) res" where
  "splitext (PStr p) = Inr (splitext_str p)"
| "splitext _ = Inl TypeError"

text \<open>
  \<^verbatim>\<open>t + ".gz"\<close> for a tuple \<open>t\<close>: Python concatenates a tuple only with a tuple, so the
  expression raises \<^verbatim>\<open>TypeError\<close> whatever the tuple holds.
\<close>

definition tuple_add_str :: "string \<times> string \<Rightarrow> string \<Rightarrow> pyval res" where
  "tuple_add_str t s = Inl TypeError"

subsection \<open>Sets of pairs\<close>

text \<open>
  Lists and dictionaries are unhashable. Among the hashable values of the model Python's
  \<^verbatim>\<open>==\<close> is structural equality, except that \<^verbatim>\<open>True == 1\<close> and \<^verbatim>\<open>False == 0\<close>;
  \<open>py_key\<close> maps a value to the representative of its equality class.
\<close>

fun hashable :: "pyval \<Rightarrow> bool" where
  "hashable (PList xs) = False"
| "hashable (PDict d) = False"
| "hashable _ = True"

fun py_key :: "pyval \<Rightarrow> pyval" where
  "py_key (PBool b) = PInt (if b then 1 else 0)"
| "py_key v = v"

definition pair_key :: "pyval \<times> pyval \<Rightarrow> pyval \<times> pyval" where
  "pair_key p = (py_key (fst p), py_key (snd p))"

text \<open>
  \<^verbatim>\<open>set(ps)\<close> for a list of pairs: hashing a pair hashes both components; an element
  equal to one already present is not added. The set is kept as the list of its elements
  in the order of their first occurrence.
\<close>

definition set_add :: "(pyval \<times> pyval) list \<Rightarrow> pyval \<times> pyval \<Rightarrow> (pyval \<times> pyval) list" where
  "set_add s p = (if pair_key p \<in> set (map pair_key s) then s else s @ [p])"

definition py_set :: "(pyval \<times> pyval) list \<Rightarrow> (pyval \<times> pyval) list res" where
  "py_set ps =
     (if list_all (\<lambda>p. hashable (fst p) \<and> hashable (snd p)) ps
      then Inr (foldl set_add [] ps) else Inl TypeError)"

section \<open>The agent (Transport Delegate)\<close>

text \<open>
  \<^verbatim>\<open>pennsieve2.Pennsieve\<close> is not part of the repository. The wrapper sees it as an
  object that receives calls; the model keeps the calls it has received, in order, and
  takes its answers from a parameter \<open>agent\<close>, a function of the calls received so far and
  the new call.
\<close>

datatype dcall =
    Connect "pyval option"
  | Get string "(string \<times> string) list" "(string \<times> pyval) list"

record delegate =
  received :: "dcall list"

type_synonym agent = "dcall list \<Rightarrow> dcall \<Rightarrow> pyval res"

definition delegate_call :: "agent \<Rightarrow> delegate \<Rightarrow> dcall \<Rightarrow> pyval res \<times> delegate" where
  "delegate_call ag d c = (ag (received d) c, d\<lparr>received := received d @ [c]\<rparr>)"

section \<open>The service\<close>

record service =
  profile_name :: pyval
  Pennsieve :: delegate

definition default_headers :: "(string \<times> string) list" where
  "default_headers =
     [(''Content-Type'', ''application/json''),
      (''Accept'', ''application/json; charset=utf-8'')]"

definition host_api :: string where
  "host_api = ''https://api.pennsieve.io''"

text \<open>
  \<^verbatim>\<open>connect\<close>: the agent's \<^verbatim>\<open>connect\<close> is called with \<^verbatim>\<open>profile_name=\<close> when the
  profile is not \<^verbatim>\<open>None\<close> and without argument otherwise; the agent object is returned.
\<close>

definition connect :: "agent \<Rightarrow> service \<Rightarrow> delegate res \<times> service" where
  "connect ag svc =
     (let c = (if profile_name svc \<noteq> PNone then Connect (Some (profile_name svc))
               else Connect None);
          rd = delegate_call ag (Pennsieve svc) c;
          svc' = svc\<lparr>Pennsieve := snd rd\<rparr>
      in case fst rd of
           Inl e \<Rightarrow> (Inl e, svc')
         | Inr _ \<Rightarrow> (Inr (Pennsieve svc'), svc'))"

text \<open>
  \<^verbatim>\<open>__init__(config=None, connect=False)\<close>. The two \<^verbatim>\<open>logging\<close> calls have no effect
  in the model, but the argument of \<^verbatim>\<open>logging.info("Profile: " + self.profile_name)\<close>
  is evaluated, and that concatenation can raise. The result is the constructed service,
  or the exception that ended the construction.
\<close>

definition init :: "agent \<Rightarrow> pyval \<Rightarrow> bool \<Rightarrow> service res" where
  "init ag config connect_flag =
     (let d = \<lparr>received = []\<rparr> in
      case (if config \<noteq> PNone
            then (case py_get config ''pennsieve_profile_name'' of
                    Inl e \<Rightarrow> Inl e
                  | Inr p \<Rightarrow> (case str_add ''Profile: '' p of
                               Inl e \<Rightarrow> Inl e
                             | Inr _ \<Rightarrow> Inr p))
            else Inr PNone) of
        Inl e \<Rightarrow> Inl e
      | Inr p \<Rightarrow>
          (let svc = \<lparr>profile_name = p, Pennsieve = d\<rparr> in
           if connect_flag
           then (case connect ag svc of
                   (Inl e, _) \<Rightarrow> Inl e
                 | (Inr _, svc') \<Rightarrow> Inr svc')
           else Inr svc))"

section \<open>Search operations\<close>

text \<open>
  A call passes its arguments by keyword: \<open>kw\<close> is the list of the keywords written at
  the call with their values. A keyword the function does not declare makes the call
  raise \<^verbatim>\<open>TypeError\<close> before the body runs; a declared parameter that is not passed
  takes its default.
\<close>

type_synonym kwargs = "(string \<times> pyval) list"

definition accepts :: "string list \<Rightarrow> kwargs \<Rightarrow> bool" where
  "accepts names kw = list_all (\<lambda>k. k \<in> set names) (map fst kw)"

definition kwarg :: "kwargs \<Rightarrow> string \<Rightarrow> pyval \<Rightarrow> pyval" where
  "kwarg kw name dflt = (case map_of kw name of None \<Rightarrow> dflt | Some v \<Rightarrow> v)"

text \<open>\<^verbatim>\<open>self.Pennsieve.get(url, headers=..., params=...)\<close>.\<close>

definition delegate_get ::
  "agent \<Rightarrow> service \<Rightarrow> string \<Rightarrow> (string \<times> string) list \<Rightarrow> (string \<times> pyval) list
     \<Rightarrow> pyval res \<times> service" where
  "delegate_get ag svc url headers params =
     (let rd = delegate_call ag (Pennsieve svc) (Get url headers params)
      in (fst rd, svc\<lparr>Pennsieve := snd rd\<rparr>))"

text \<open>The \<^verbatim>\<open>params\<close> dictionary literal of \<^verbatim>\<open>list_datasets\<close>.\<close>

definition datasets_params :: "kwargs \<Rightarrow> (string \<times> pyval) list" where
  "datasets_params kw =
     [(''limit'', kwarg kw ''limit'' (PInt 10)),
      (''offset'', kwarg kw ''offset'' (PInt 0)),
      (''query'', kwarg kw ''query'' PNone),
      (''organization'', kwarg kw ''organization'' PNone),
      (''organizationId'', kwarg kw ''organization_id'' PNone),
      (''tags'', kwarg kw ''tags'' PNone),
      (''embargo'', kwarg kw ''embargo'' PNone),
      (''orderBy'', kwarg kw ''order_by'' PNone),
      (''orderDirection'', kwarg kw ''order_direction'' PNone)]"

text \<open>The parameters \<^verbatim>\<open>list_datasets\<close> declares.\<close>

definition datasets_names :: "string list" where
  "datasets_names = [''limit'', ''offset'', ''query'', ''organization'', ''organization_id'',
                     ''tags'', ''embargo'', ''order_by'', ''order_direction'']"

definition list_datasets :: "agent \<Rightarrow> service \<Rightarrow> kwargs \<Rightarrow> pyval res \<times> service" where
  "list_datasets ag svc kw =
     (if \<not> accepts datasets_names kw
      then (Inl TypeError, svc)
      else delegate_get ag svc (host_api @ ''/discover/search/datasets'') default_headers
             (datasets_params kw))"

text \<open>The \<^verbatim>\<open>params\<close> dictionary literal of \<^verbatim>\<open>list_files\<close>.\<close>

definition files_params :: "kwargs \<Rightarrow> (string \<times> pyval) list" where
  "files_params kw =
     [(''limit'', kwarg kw ''limit'' (PInt 10)),
      (''offset'', kwarg kw ''offset'' (PInt 0)),
      (''fileType'', kwarg kw ''file_type'' PNone),
      (''query'', kwarg kw ''query'' PNone),
      (''organization'', kwarg kw ''organization'' PNone),
      (''organizationId'', kwarg kw ''organization_id'' PNone),
      (''datasetId'', kwarg kw ''dataset_id'' PNone)]"

text \<open>The parameters \<^verbatim>\<open>list_files\<close> and \<^verbatim>\<open>list_filenames\<close> declare.\<close>

definition files_names :: "string list" where
  "files_names = [''limit'', ''offset'', ''file_type'', ''query'', ''organization'',
                  ''organization_id'', ''dataset_id'']"

text \<open>\<^verbatim>\<open>list_files\<close>: the agent's answer subscripted with \<^verbatim>\<open>["files"]\<close>.\<close>

definition list_files :: "agent \<Rightarrow> service \<Rightarrow> kwargs \<Rightarrow> pyval res \<times> service" where
  "list_files ag svc kw =
     (if \<not> accepts files_names kw then (Inl TypeError, svc)
      else (case delegate_get ag svc (host_api @ ''/discover/search/files'') default_headers
                   (files_params kw) of
              (Inl e, svc') \<Rightarrow> (Inl e, svc')
            | (Inr body, svc') \<Rightarrow> (getitem body ''files'', svc')))"

text \<open>
  The lambda of \<^verbatim>\<open>list_filenames\<close>: \<^verbatim>\<open>"/".join(x["uri"].split("/")[5:])\<close>. Only a
  string has the method \<^verbatim>\<open>split\<close>.
\<close>

definition filename_of :: "pyval \<Rightarrow> pyval res" where
  "filename_of x =
     (case getitem x ''uri'' of
        Inl e \<Rightarrow> Inl e
      | Inr u \<Rightarrow> (case u of PStr s \<Rightarrow> Inr (PStr (uri_path s)) | _ \<Rightarrow> Inl AttributeError))"

text \<open>
  The keyword arguments of the call \<^verbatim>\<open>self.list_files(limit=limit, offset=offset, ...)\<close>
  in \<^verbatim>\<open>list_filenames\<close>: each of the seven parameters is passed on by keyword.
\<close>

definition forwarded :: "kwargs \<Rightarrow> kwargs" where
  "forwarded kw =
     [(''limit'', kwarg kw ''limit'' (PInt 10)),
      (''offset'', kwarg kw ''offset'' (PInt 0)),
      (''file_type'', kwarg kw ''file_type'' PNone),
      (''query'', kwarg kw ''query'' PNone),
      (''organization'', kwarg kw ''organization'' PNone),
      (''organization_id'', kwarg kw ''organization_id'' PNone),
      (''dataset_id'', kwarg kw ''dataset_id'' PNone)]"

text \<open>\<^verbatim>\<open>list_filenames\<close> calls \<^verbatim>\<open>list_files\<close> and maps the lambda over the answer.\<close>

definition list_filenames :: "agent \<Rightarrow> service \<Rightarrow> kwargs \<Rightarrow> pyval res \<times> service" where
  "list_filenames ag svc kw =
     (if \<not> accepts files_names kw then (Inl TypeError, svc)
      else (case list_files ag svc (forwarded kw) of
              (Inl e, svc') \<Rightarrow> (Inl e, svc')
            | (Inr response, svc') \<Rightarrow>
                (case py_iter response of
                   Inl e \<Rightarrow> (Inl e, svc')
                 | Inr xs \<Rightarrow>
                     (case map_res filename_of xs of
                        Inl e \<Rightarrow> (Inl e, svc')
                      | Inr ys \<Rightarrow> (Inr (PList ys), svc')))))"

text \<open>The \<^verbatim>\<open>params\<close> dictionary literal of \<^verbatim>\<open>list_records\<close>.\<close>

definition records_params :: "kwargs \<Rightarrow> (string \<times> pyval) list" where
  "records_params kw =
     [(''limit'', kwarg kw ''limit'' (PInt 10)),
      (''offset'', kwarg kw ''offset'' (PInt 0)),
      (''model'', kwarg kw ''model'' PNone),
      (''organization'', kwarg kw ''organization'' PNone),
      (''datasetId'', kwarg kw ''dataset_id'' PNone)]"

text \<open>The parameters \<^verbatim>\<open>list_records\<close> declares.\<close>

definition records_names :: "string list" where
  "records_names = [''limit'', ''offset'', ''model'', ''organization'', ''dataset_id'']"

definition list_records :: "agent \<Rightarrow> service \<Rightarrow> kwargs \<Rightarrow> pyval res \<times> service" where
  "list_records ag svc kw =
     (if \<not> accepts records_names kw
      then (Inl TypeError, svc)
      else delegate_get ag svc (host_api @ ''/discover/search/records'') default_headers
             (records_params kw))"

section \<open>Download\<close>

text \<open>
  \<^verbatim>\<open>download_file\<close> talks to the packaging service with \<^verbatim>\<open>requests.post\<close> and writes
  a local file. The world it acts on is the list of POST requests issued so far (URL,
  JSON payload, headers) and the local files (name and content, the newest binding of a
  name first). The answer of the remote service is the parameter \<open>http\<close>.
\<close>

record response =
  status_code :: int
  content :: string

type_synonym post_request = "string \<times> pyval \<times> (string \<times> string) list"

record world =
  posts :: "post_request list"
  disk :: "(string \<times> string) list"

type_synonym http = "string \<Rightarrow> pyval \<Rightarrow> (string \<times> string) list \<Rightarrow> response res"

definition assert_msg :: string where
  "assert_msg =
     ''Downloading files from multiple datasets or dataset versions is not supported.''"

text \<open>The element of the first comprehension: \<^verbatim>\<open>(x["datasetId"], x["datasetVersion"])\<close>.\<close>

definition dataset_pair :: "pyval \<Rightarrow> (pyval \<times> pyval) res" where
  "dataset_pair x =
     (case getitem x ''datasetId'' of
        Inl e \<Rightarrow> Inl e
      | Inr i \<Rightarrow> (case getitem x ''datasetVersion'' of
                   Inl e \<Rightarrow> Inl e
                 | Inr v \<Rightarrow> Inr (i, v)))"

text \<open>
  The element of the second comprehension:
  \<^verbatim>\<open>x if x.get("uri") is None else "/".join(x.get("uri").split("/")[5:])\<close>.
\<close>

definition path_of :: "pyval \<Rightarrow> pyval res" where
  "path_of x =
     (case py_get x ''uri'' of
        Inl e \<Rightarrow> Inl e
      | Inr u \<Rightarrow> (case u of
                   PNone \<Rightarrow> Inr x
                 | PStr s \<Rightarrow> Inr (PStr (uri_path s))
                 | _ \<Rightarrow> Inl AttributeError))"

text \<open>
  \<^verbatim>\<open>open(name, mode="wb+")\<close>: the name of the file that is created or truncated. A
  value that is no path raises \<^verbatim>\<open>TypeError\<close>. The model lets the local file system
  accept every string as a name; numbers (taken by Python as file descriptors) are
  treated like the other values that are no path.
\<close>

fun open_wb :: "pyval \<Rightarrow> string res" where
  "open_wb (PStr s) = Inr s"
| "open_wb _ = Inl TypeError"

definition is_dict :: "pyval \<Rightarrow> bool" where
  "is_dict v = (case v of PDict d \<Rightarrow> True | _ \<Rightarrow> False)"

definition download_file :: "http \<Rightarrow> world \<Rightarrow> pyval \<Rightarrow> pyval \<Rightarrow> response res \<times> world" where
  "download_file post w file_list0 output_name =
     (let file_list = (if is_dict file_list0 then PList [file_list0] else file_list0) in
      case py_iter file_list of
        Inl e \<Rightarrow> (Inl e, w)
      | Inr xs \<Rightarrow>
      (case map_res dataset_pair xs of
        Inl e \<Rightarrow> (Inl e, w)
      | Inr ps \<Rightarrow>
      (case py_set ps of
        Inl e \<Rightarrow> (Inl e, w)
      | Inr properties \<Rightarrow>
      (case map_res path_of xs of
        Inl e \<Rightarrow> (Inl e, w)
      | Inr paths \<Rightarrow>
      (case properties of
        [p] \<Rightarrow>
          (let json = PDict [(''data'', PDict [(''paths'', PList paths),
                                               (''datasetId'', fst p),
                                               (''version'', snd p)])];
               url = ''https://api.pennsieve.io/zipit/discover'';
               headers = [(''content-type'', ''application/json'')];
               w1 = w\<lparr>posts := posts w @ [(url, json, headers)]\<rparr>
           in case post url json headers of
                Inl e \<Rightarrow> (Inl e, w1)
              | Inr response \<Rightarrow>
                  (case (if output_name = PNone
                         then (if length paths = 1
                               then (case getitem0 file_list of
                                       Inl e \<Rightarrow> Inl e
                                     | Inr x \<Rightarrow> getitem x ''name'')
                               else (case getitem0 file_list of
                                       Inl e \<Rightarrow> Inl e
                                     | Inr x \<Rightarrow>
                                         (case splitext x of
                                            Inl e \<Rightarrow> Inl e
                                          | Inr t \<Rightarrow> tuple_add_str t ''.gz'')))
                         else Inr output_name) of
                     Inl e \<Rightarrow> (Inl e, w1)
                   | Inr name \<Rightarrow>
                       (case open_wb name of
                          Inl e \<Rightarrow> (Inl e, w1)
                        | Inr f \<Rightarrow>
                            (Inr response, w1\<lparr>disk := (f, content response) # disk w1\<rparr>))))
      | _ \<Rightarrow> (Inl (AssertionError assert_msg), w))))))"

section \<open>The wire names of the specification\<close>

text \<open>
  The specification renames the multi-word parameters to camelCase
  (\<^verbatim>\<open>organization_id\<close> to \<^verbatim>\<open>organizationId\<close>, \<^verbatim>\<open>file_type\<close> to \<^verbatim>\<open>fileType\<close>,
  \<^verbatim>\<open>dataset_id\<close> to \<^verbatim>\<open>datasetId\<close>, \<^verbatim>\<open>order_by\<close> to \<^verbatim>\<open>orderBy\<close>,
  \<^verbatim>\<open>order_direction\<close> to \<^verbatim>\<open>orderDirection\<close>) and leaves the others as they are;
  \<^verbatim>\<open>limit\<close> defaults to 10, \<^verbatim>\<open>offset\<close> to 0, every filter to \<^verbatim>\<open>None\<close>.
  \<open>spec_params\<close> is the mapping the specification describes for a list of
  parameters; the definitions of the previous sections are compared with it.
\<close>

definition spec_wire_key :: "string \<Rightarrow> string" where
  "spec_wire_key k =
     (if k = ''organization_id'' then ''organizationId''
      else if k = ''file_type'' then ''fileType''
      else if k = ''dataset_id'' then ''datasetId''
      else if k = ''order_by'' then ''orderBy''
      else if k = ''order_direction'' then ''orderDirection''
      else k)"

definition spec_default :: "string \<Rightarrow> pyval" where
  "spec_default k =
     (if k = ''limit'' then PInt 10 else if k = ''offset'' then PInt 0 else PNone)"

definition spec_params :: "string list \<Rightarrow> kwargs \<Rightarrow> (string \<times> pyval) list" where
  "spec_params names kw = map (\<lambda>k. (spec_wire_key k, kwarg kw k (spec_default k))) names"

section \<open>Concrete inputs\<close>

text \<open>
  An agent that answers every call with the same parsed body, a service just constructed
  without configuration, a world with no request issued and no file written, a packaging
  service that answers every POST with status 200 and the given body, and three file
  entries: \<open>file_a\<close> and \<open>file_b\<close> of dataset 11 version 2, \<open>file_c\<close> of version 3.
\<close>

definition answering :: "pyval \<Rightarrow> agent" where
  "answering body h c = Inr body"

definition fresh_service :: service where
  "fresh_service = \<lparr>profile_name = PNone, Pennsieve = \<lparr>received = []\<rparr>\<rparr>"

definition empty_world :: world where
  "empty_world = \<lparr>posts = [], disk = []\<rparr>"

definition served :: "string \<Rightarrow> http" where
  "served bytes url json headers = Inr \<lparr>status_code = 200, content = bytes\<rparr>"

definition file_a :: pyval where
  "file_a = PDict [(''datasetId'', PInt 11), (''datasetVersion'', PInt 2),
                   (''uri'', PStr ''s3://bucket/11/2/files/docs/a.csv''),
                   (''name'', PStr ''a.csv'')]"

definition file_b :: pyval where
  "file_b = PDict [(''datasetId'', PInt 11), (''datasetVersion'', PInt 2),
                   (''uri'', PStr ''s3://bucket/11/2/files/docs/b.csv''),
                   (''name'', PStr ''b.csv'')]"

definition file_c :: pyval where
  "file_c = PDict [(''datasetId'', PInt 11), (''datasetVersion'', PInt 3),
                   (''uri'', PStr ''s3://bucket/11/3/files/docs/b.csv''),
                   (''name'', PStr ''b.csv'')]"

section \<open>Auxiliary facts\<close>

lemma map_res_Inr_iff:
  "map_res f xs = Inr ys \<longleftrightarrow>
     length ys = length xs \<and> (\<forall>i<length xs. f (xs ! i) = Inr (ys ! i))"
proof (induction xs arbitrary: ys)
  case Nil
  then show ?case by auto
next
  case (Cons x xs)
  show ?case
  proof (cases ys)
    case Nil
    then show ?thesis by (auto split: sum.splits)
  next
    case (Cons y ys')
    then show ?thesis using Cons.IH [of ys']
      by (auto split: sum.splits simp: nth_Cons' less_Suc_eq_0_disj)
  qed
qed

lemma map_res_total:
  "(\<And>x. x \<in> set xs \<Longrightarrow> \<exists>y. f x = Inr y) \<Longrightarrow> \<exists>ys. map_res f xs = Inr ys"
  by (induction xs) (fastforce split: sum.splits)+

lemma map_res_set:
  "map_res f xs = Inr ys \<Longrightarrow> x \<in> set xs \<Longrightarrow> f x = Inr y \<Longrightarrow> y \<in> set ys"
  by (induction xs arbitrary: ys) (auto split: sum.splits)

text \<open>The set built from a list of pairs has one element for each equality class.\<close>

lemma foldl_set_add:
  "distinct (map pair_key s) \<Longrightarrow>
     distinct (map pair_key (foldl set_add s ps)) \<and>
     pair_key ` set (foldl set_add s ps) = pair_key ` (set s \<union> set ps)"
proof (induction ps arbitrary: s)
  case Nil
  then show ?case by simp
next
  case (Cons p ps)
  have d: "distinct (map pair_key (set_add s p))"
    using Cons.prems by (simp add: set_add_def)
  have e: "pair_key ` set (set_add s p) = insert (pair_key p) (pair_key ` set s)"
    by (auto simp: set_add_def)
  from Cons.IH [OF d] e show ?case by auto
qed

lemma length_foldl_set_add:
  "length (foldl set_add [] ps) = card (pair_key ` set ps)"
proof -
  have "distinct (map pair_key (foldl set_add [] ps))"
    and "pair_key ` set (foldl set_add [] ps) = pair_key ` set ps"
    using foldl_set_add [of "[]" ps] by simp_all
  then show ?thesis
    by (metis distinct_card length_map set_map)
qed

lemma two_keys_not_singleton:
  assumes "p \<in> set ps" "q \<in> set ps" "pair_key p \<noteq> pair_key q"
  shows "length (foldl set_add [] ps) \<noteq> 1"
proof
  assume "length (foldl set_add [] ps) = 1"
  then have "card (pair_key ` set ps) = 1" by (simp add: length_foldl_set_add)
  then obtain k where "pair_key ` set ps = {k}" by (auto simp: card_1_singleton_iff)
  moreover have "pair_key p \<in> pair_key ` set ps" "pair_key q \<in> pair_key ` set ps"
    using assms by simp_all
  ultimately have "pair_key p = k" "pair_key q = k" by simp_all
  with assms show False by simp
qed

text \<open>A value stored in a dictionary is smaller than the dictionary.\<close>

lemma map_of_size: "map_of d k = Some v \<Longrightarrow> size v < size (PDict d)"
  by (induction d) (auto split: if_splits)

lemma uri_path_example:
  "uri_path ''proto://host/bucket/dataset/version/sub/path/file.csv'' =
     ''version/sub/path/file.csv''"
  by (simp add: uri_path_def)

section \<open>Path derivation from a URI\<close>

text \<open>
  Claim C4, as the specification states it: for the entry with \<^verbatim>\<open>uri\<close>
  \<^verbatim>\<open>proto://host/bucket/dataset/version/sub/path/file.csv\<close> the derived path would be
  \<^verbatim>\<open>sub/path/file.csv\<close>. The code does not return that: \<^verbatim>\<open>split("/")\<close> yields
  the segments \<^verbatim>\<open>proto:\<close>, the empty string between the two slashes, \<^verbatim>\<open>host\<close>,
  \<^verbatim>\<open>bucket\<close>, \<^verbatim>\<open>dataset\<close>, \<^verbatim>\<open>version\<close>, ..., and the first five of them end
  with \<^verbatim>\<open>dataset\<close>.
\<close>

theorem list_filenames_example_counterexample:
  "fst (list_filenames
          (answering (PDict [(''files'', PList [PDict [(''uri'',
             PStr ''proto://host/bucket/dataset/version/sub/path/file.csv'')]])]))
          fresh_service [])
     \<noteq> Inr (PList [PStr ''sub/path/file.csv''])"
  by (simp add: list_filenames_def list_files_def accepts_def files_names_def forwarded_def
      delegate_get_def delegate_call_def answering_def filename_of_def uri_path_example)

text \<open>
  Claim C4, amended: for the entry with \<^verbatim>\<open>uri\<close>
  \<^verbatim>\<open>proto://host/bucket/dataset/version/sub/path/file.csv\<close>, \<^verbatim>\<open>list_filenames\<close>
  derives the relative path \<^verbatim>\<open>version/sub/path/file.csv\<close>: the uri is split on
  \<^verbatim>\<open>/\<close> and the first five segments are discarded.
\<close>

theorem list_filenames_example:
  "fst (list_filenames
          (answering (PDict [(''files'', PList [PDict [(''uri'',
             PStr ''proto://host/bucket/dataset/version/sub/path/file.csv'')]])]))
          fresh_service [])
     = Inr (PList [PStr ''version/sub/path/file.csv''])"
  by (simp add: list_filenames_def list_files_def accepts_def files_names_def forwarded_def
      delegate_get_def delegate_call_def answering_def filename_of_def uri_path_example)

text \<open>
  Claim C2, as the specification states it: an entry whose \<^verbatim>\<open>uri\<close> has fewer than five
  segments would make path derivation fail with an error. The code has no such check:
  for the uri \<^verbatim>\<open>s3://bucket\<close> (three segments) \<^verbatim>\<open>list_filenames\<close> returns normally,
  with the empty string as the path.
\<close>

theorem short_uri_no_error_counterexample:
  "fst (list_filenames
          (answering (PDict [(''files'', PList [PDict [(''uri'', PStr ''s3://bucket'')]])]))
          fresh_service [])
     = Inr (PList [PStr ''''])"
  by (simp add: list_filenames_def list_files_def accepts_def files_names_def forwarded_def
      delegate_get_def delegate_call_def answering_def filename_of_def uri_path_def)

text \<open>
  Claim C2, amended: for every file entry whose \<^verbatim>\<open>uri\<close> field is a string with fewer
  than five \<^verbatim>\<open>/\<close>-separated segments, path derivation raises nothing, both in
  \<^verbatim>\<open>list_filenames\<close> and in \<^verbatim>\<open>download_file\<close>: the derived path is the empty string.
\<close>

theorem short_uri_gives_empty_path:
  assumes "getitem x ''uri'' = Inr (PStr u)"
    and "length (py_split CHR ''/'' u) < 5"
  shows "filename_of x = Inr (PStr '''') \<and> path_of x = Inr (PStr '''')"
proof -
  have "uri_path u = []"
    using assms(2) by (simp add: uri_path_def)
  moreover have "py_get x ''uri'' = Inr (PStr u)"
    using assms(1) by (cases x) (auto split: option.splits)
  ultimately show ?thesis
    using assms(1) by (simp add: filename_of_def path_of_def)
qed

theorem short_uri_gives_empty_path_witness:
  "getitem (PDict [(''uri'', PStr ''s3://bucket'')]) ''uri'' = Inr (PStr ''s3://bucket'') \<and>
   length (py_split CHR ''/'' ''s3://bucket'') < 5 \<and>
   filename_of (PDict [(''uri'', PStr ''s3://bucket'')]) = Inr (PStr '''') \<and>
   path_of (PDict [(''uri'', PStr ''s3://bucket'')]) = Inr (PStr '''')"
  using short_uri_gives_empty_path
    [of "PDict [(''uri'', PStr ''s3://bucket'')]" "''s3://bucket''"]
  by simp

section \<open>Construction\<close>

text \<open>
  Claim C5 says that a configuration mapping without the field
  \<^verbatim>\<open>pennsieve_profile_name\<close> constructs a service whose profile is \<^verbatim>\<open>None\<close>, as
  no configuration does. The code reads the field with \<^verbatim>\<open>config.get\<close>, stores
  \<^verbatim>\<open>None\<close>, and then raises \<^verbatim>\<open>TypeError\<close> in
  \<^verbatim>\<open>logging.info("Profile: " + self.profile_name)\<close>: with the empty mapping the
  construction fails, while without configuration it succeeds.
\<close>

theorem init_without_profile_name_raises:
  "init ag (PDict []) False = Inl TypeError \<and> init ag PNone False = Inr fresh_service"
  by (simp add: init_def fresh_service_def)

section \<open>Download\<close>

text \<open>
  Claim C9: \<^verbatim>\<open>download_file\<close> with an empty list fails the check that the set of
  distinct \<^verbatim>\<open>(datasetId, datasetVersion)\<close> pairs has exactly one element: it raises the
  assertion error with the message about multiple datasets, before any request is issued
  or file written (the world is unchanged).
\<close>

theorem download_file_empty_batch_fails:
  "download_file post w (PList []) output_name = (Inl (AssertionError assert_msg), w)"
  by (simp add: download_file_def is_dict_def py_set_def)

text \<open>
  Claim C3 says that a batch of more than one file without \<^verbatim>\<open>output_name\<close> is
  written to the first entry's name with its extension replaced by \<^verbatim>\<open>.gz\<close>. The code
  evaluates \<^verbatim>\<open>os.path.splitext(file_list[0]) + ".gz"\<close>, where \<^verbatim>\<open>file_list[0]\<close>
  is the entry itself (a dictionary): for the batch of \<open>file_a\<close> and \<open>file_b\<close> the
  request is posted, then \<^verbatim>\<open>TypeError\<close> is raised and no file is written.
\<close>

theorem download_file_multi_no_name_raises:
  "download_file (served ''PK'') empty_world (PList [file_a, file_b]) PNone =
     (Inl TypeError,
      \<lparr>posts = [(''https://api.pennsieve.io/zipit/discover'',
                 PDict [(''data'',
                   PDict [(''paths'', PList [PStr ''files/docs/a.csv'', PStr ''files/docs/b.csv'']),
                          (''datasetId'', PInt 11), (''version'', PInt 2)])],
                 [(''content-type'', ''application/json'')])],
       disk = []\<rparr>)"
  by (simp add: download_file_def is_dict_def py_set_def file_a_def file_b_def
      dataset_pair_def set_add_def pair_key_def path_of_def uri_path_def served_def
      empty_world_def)

text \<open>
  The branches of \<^verbatim>\<open>download_file\<close> that the batch of \<open>file_a\<close> and \<open>file_b\<close> takes
  with a name supplied, and the single entry \<open>file_a\<close> takes without one: the body is
  written to the supplied name, respectively to the entry's \<^verbatim>\<open>name\<close> field.
\<close>

lemma download_file_named_example:
  "disk (snd (download_file (served ''PK'') empty_world (PList [file_a, file_b])
                (PStr ''out.zip''))) = [(''out.zip'', ''PK'')]"
  by (simp add: download_file_def is_dict_def py_set_def file_a_def file_b_def
      dataset_pair_def set_add_def pair_key_def path_of_def uri_path_def served_def
      empty_world_def)

lemma download_file_single_example:
  "disk (snd (download_file (served ''PK'') empty_world file_a PNone)) = [(''a.csv'', ''PK'')]"
  by (simp add: download_file_def is_dict_def py_set_def file_a_def
      dataset_pair_def set_add_def pair_key_def path_of_def uri_path_def served_def
      empty_world_def)

lemma props_case_not_singleton:
  "length props \<noteq> 1 \<Longrightarrow> (case props of [p] \<Rightarrow> f p | _ \<Rightarrow> g) = g"
  by (cases props) (auto split: list.splits)

text \<open>
  Claim C1: when the list passed to \<^verbatim>\<open>download_file\<close> holds two entries whose
  \<^verbatim>\<open>(datasetId, datasetVersion)\<close> pairs differ, the call fails and leaves the world as
  it was: no request is posted and no file is written. When moreover every entry of the
  list is a descriptor (it has both fields with hashable values, and a path can be
  derived from it), the failure is the assertion on the set of distinct pairs.
\<close>

theorem download_file_mixed_batch_fails:
  assumes "x \<in> set xs" and "y \<in> set xs"
    and "dataset_pair x = Inr p" and "dataset_pair y = Inr q"
    and "pair_key p \<noteq> pair_key q"
  shows "(\<exists>e. download_file post w (PList xs) output_name = (Inl e, w)) \<and>
         ((\<forall>z\<in>set xs. (\<exists>i v. dataset_pair z = Inr (i, v) \<and> hashable i \<and> hashable v) \<and>
                        (\<exists>r. path_of z = Inr r))
            \<longrightarrow> download_file post w (PList xs) output_name =
                  (Inl (AssertionError assert_msg), w))"
proof -
  have mixed: "length (foldl set_add [] ps) \<noteq> 1" if "map_res dataset_pair xs = Inr ps" for ps
  proof -
    have "p \<in> set ps" "q \<in> set ps"
      using that assms(1-4) by (auto dest: map_res_set)
    then show ?thesis using assms(5) by (rule two_keys_not_singleton)
  qed
  have fails: "\<exists>e. download_file post w (PList xs) output_name = (Inl e, w)"
  proof (cases "map_res dataset_pair xs")
    case (Inl e)
    then show ?thesis by (simp add: download_file_def is_dict_def)
  next
    case (Inr ps)
    note ps = this
    show ?thesis
    proof (cases "py_set ps")
      case (Inl e)
      then show ?thesis using ps by (simp add: download_file_def is_dict_def)
    next
      case (Inr props)
      then have "props = foldl set_add [] ps"
        by (simp add: py_set_def split: if_splits)
      then have len: "length props \<noteq> 1" using mixed [OF ps] by simp
      show ?thesis
      proof (cases "map_res path_of xs")
        case (Inl e)
        then show ?thesis using ps Inr by (simp add: download_file_def is_dict_def)
      next
        case (Inr paths)
        then show ?thesis using ps \<open>py_set ps = Inr props\<close> len
          by (simp add: download_file_def is_dict_def props_case_not_singleton)
      qed
    qed
  qed
  have asserts:
    "download_file post w (PList xs) output_name = (Inl (AssertionError assert_msg), w)"
    if wf: "\<forall>z\<in>set xs. (\<exists>i v. dataset_pair z = Inr (i, v) \<and> hashable i \<and> hashable v) \<and>
                        (\<exists>r. path_of z = Inr r)"
  proof -
    obtain ps where ps: "map_res dataset_pair xs = Inr ps"
      using map_res_total [of xs dataset_pair] wf by blast
    obtain paths where paths: "map_res path_of xs = Inr paths"
      using map_res_total [of xs path_of] wf by blast
    have "hashable (fst r) \<and> hashable (snd r)" if "r \<in> set ps" for r
    proof -
      from that obtain i where i: "i < length ps" "ps ! i = r"
        by (auto simp: in_set_conv_nth)
      with ps have "dataset_pair (xs ! i) = Inr r" "i < length xs"
        by (simp_all add: map_res_Inr_iff)
      moreover from this wf
      have "\<exists>a b. dataset_pair (xs ! i) = Inr (a, b) \<and> hashable a \<and> hashable b"
        using nth_mem [of i xs] by blast
      ultimately show ?thesis by auto
    qed
    then have "py_set ps = Inr (foldl set_add [] ps)"
      by (simp add: py_set_def list_all_iff)
    with ps paths mixed [OF ps] show ?thesis
      by (simp add: download_file_def is_dict_def props_case_not_singleton)
  qed
  from fails asserts show ?thesis by blast
qed

theorem download_file_mixed_batch_fails_witness:
  "file_a \<in> set [file_a, file_c] \<and> file_c \<in> set [file_a, file_c] \<and>
   dataset_pair file_a = Inr (PInt 11, PInt 2) \<and>
   dataset_pair file_c = Inr (PInt 11, PInt 3) \<and>
   pair_key (PInt 11, PInt 2) \<noteq> pair_key (PInt 11, PInt 3) \<and>
   hashable (PInt 11) \<and> hashable (PInt 2) \<and> hashable (PInt 3) \<and>
   path_of file_a = Inr (PStr ''files/docs/a.csv'') \<and>
   path_of file_c = Inr (PStr ''files/docs/b.csv'') \<and>
   download_file (served ''PK'') empty_world (PList [file_a, file_c]) PNone =
     (Inl (AssertionError assert_msg), empty_world)"
proof -
  have a: "dataset_pair file_a = Inr (PInt 11, PInt 2)"
    by (simp add: dataset_pair_def file_a_def)
  have c: "dataset_pair file_c = Inr (PInt 11, PInt 3)"
    by (simp add: dataset_pair_def file_c_def)
  have k: "pair_key (PInt 11, PInt 2) \<noteq> pair_key (PInt 11, PInt 3)"
    by (simp add: pair_key_def)
  have pa: "path_of file_a = Inr (PStr ''files/docs/a.csv'')"
    by (simp add: path_of_def file_a_def uri_path_def)
  have pc: "path_of file_c = Inr (PStr ''files/docs/b.csv'')"
    by (simp add: path_of_def file_c_def uri_path_def)
  have wf: "\<forall>z\<in>set [file_a, file_c].
       (\<exists>i v. dataset_pair z = Inr (i, v) \<and> hashable i \<and> hashable v) \<and>
       (\<exists>r. path_of z = Inr r)"
    using a c pa pc by simp
  from download_file_mixed_batch_fails
         [of file_a "[file_a, file_c]" file_c "(PInt 11, PInt 2)" "(PInt 11, PInt 3)"
            "served ''PK''" empty_world PNone, OF _ _ a c k] wf a c k pa pc
  show ?thesis by simp
qed

section \<open>Connecting\<close>

text \<open>
  Claim C8: \<^verbatim>\<open>connect\<close> sends the agent exactly one call: \<^verbatim>\<open>connect\<close> with the
  profile name when the profile is set, \<^verbatim>\<open>connect\<close> without argument otherwise; the
  profile is left as it was. When the agent's \<^verbatim>\<open>connect\<close> returns, the agent object is
  returned; when it raises, the exception is passed on.
\<close>

theorem connect_passes_profile:
  "received (Pennsieve (snd (connect ag svc))) =
     received (Pennsieve svc) @
       [if profile_name svc \<noteq> PNone then Connect (Some (profile_name svc)) else Connect None] \<and>
   profile_name (snd (connect ag svc)) = profile_name svc \<and>
   (ag (received (Pennsieve svc))
       (if profile_name svc \<noteq> PNone then Connect (Some (profile_name svc)) else Connect None)
      = Inr v
      \<longrightarrow> fst (connect ag svc) = Inr (Pennsieve (snd (connect ag svc)))) \<and>
   (ag (received (Pennsieve svc))
       (if profile_name svc \<noteq> PNone then Connect (Some (profile_name svc)) else Connect None)
      = Inl e
      \<longrightarrow> fst (connect ag svc) = Inl e)"
  by (cases "ag (received (Pennsieve svc)) (Connect (Some (profile_name svc)))";
      cases "ag (received (Pennsieve svc)) (Connect None)")
    (simp_all add: connect_def delegate_call_def Let_def)

theorem connect_passes_profile_witness:
  "answering PNone (received (Pennsieve (fresh_service\<lparr>profile_name := PStr ''user''\<rparr>)))
       (Connect (Some (PStr ''user''))) = Inr PNone \<and>
   received (Pennsieve (snd (connect (answering PNone)
                               (fresh_service\<lparr>profile_name := PStr ''user''\<rparr>))))
      = [Connect (Some (PStr ''user''))] \<and>
   fst (connect (answering PNone) (fresh_service\<lparr>profile_name := PStr ''user''\<rparr>))
      = Inr \<lparr>received = [Connect (Some (PStr ''user''))]\<rparr> \<and>
   answering PNone (received (Pennsieve fresh_service)) (Connect None) = Inr PNone \<and>
   received (Pennsieve (snd (connect (answering PNone) fresh_service))) = [Connect None] \<and>
   fst (connect (answering PNone) fresh_service) = Inr \<lparr>received = [Connect None]\<rparr>"
  using connect_passes_profile
          [of "answering PNone" "fresh_service\<lparr>profile_name := PStr ''user''\<rparr>" PNone]
        connect_passes_profile [of "answering PNone" fresh_service PNone]
  by (simp add: fresh_service_def answering_def)

section \<open>Search operations\<close>

lemma list_files_unfold:
  "accepts files_names kw \<Longrightarrow>
   list_files ag svc kw =
     (case ag (received (Pennsieve svc))
             (Get (host_api @ ''/discover/search/files'') default_headers (files_params kw)) of
        Inl e \<Rightarrow> Inl e | Inr body \<Rightarrow> getitem body ''files'',
      svc\<lparr>Pennsieve := (Pennsieve svc)\<lparr>received := received (Pennsieve svc) @
         [Get (host_api @ ''/discover/search/files'') default_headers (files_params kw)]\<rparr>\<rparr>)"
  by (simp add: list_files_def delegate_get_def delegate_call_def Let_def split: sum.splits)

lemma getitem_Inr:
  "getitem body k = Inr v \<Longrightarrow> \<exists>d. body = PDict d \<and> map_of d k = Some v"
  by (cases body) (auto split: option.splits)

text \<open>
  Claim C6: whenever \<^verbatim>\<open>list_files\<close> returns a value, the agent answered the GET on
  \<^verbatim>\<open>/discover/search/files\<close> with a mapping, and the value returned is what that
  mapping holds under \<^verbatim>\<open>files\<close>, never the mapping itself; when the agent's answer
  holds an array under \<^verbatim>\<open>files\<close>, that array is returned.
\<close>

theorem list_files_returns_files_entry:
  "(list_files ag svc kw = (Inr v, svc') \<longrightarrow>
      (\<exists>d. ag (received (Pennsieve svc))
              (Get (host_api @ ''/discover/search/files'') default_headers (files_params kw))
              = Inr (PDict d) \<and>
           map_of d ''files'' = Some v \<and> v \<noteq> PDict d)) \<and>
   (accepts files_names kw \<and>
    ag (received (Pennsieve svc))
       (Get (host_api @ ''/discover/search/files'') default_headers (files_params kw))
       = Inr (PDict d') \<and>
    map_of d' ''files'' = Some (PList fs)
      \<longrightarrow> fst (list_files ag svc kw) = Inr (PList fs))"
proof (rule conjI; rule impI)
  assume ok: "list_files ag svc kw = (Inr v, svc')"
  then have acc: "accepts files_names kw"
    by (auto simp: list_files_def split: if_splits)
  from ok obtain body where
    body: "ag (received (Pennsieve svc))
             (Get (host_api @ ''/discover/search/files'') default_headers (files_params kw))
           = Inr body"
    and v: "getitem body ''files'' = Inr v"
    by (auto simp: list_files_unfold [OF acc] split: sum.splits)
  from v obtain d where d: "body = PDict d" "map_of d ''files'' = Some v"
    by (auto dest: getitem_Inr)
  from d(2) have "size v < size (PDict d)" by (rule map_of_size)
  then have "v \<noteq> PDict d" by auto
  with body d show "\<exists>d. ag (received (Pennsieve svc))
              (Get (host_api @ ''/discover/search/files'') default_headers (files_params kw))
              = Inr (PDict d) \<and> map_of d ''files'' = Some v \<and> v \<noteq> PDict d"
    by auto
next
  assume "accepts files_names kw \<and>
    ag (received (Pennsieve svc))
       (Get (host_api @ ''/discover/search/files'') default_headers (files_params kw))
       = Inr (PDict d') \<and>
    map_of d' ''files'' = Some (PList fs)"
  then show "fst (list_files ag svc kw) = Inr (PList fs)"
    by (simp add: list_files_unfold)
qed

theorem list_files_returns_files_entry_witness:
  "list_files (answering (PDict [(''totalCount'', PInt 1), (''files'', PList [file_a])]))
      fresh_service []
     = (Inr (PList [file_a]),
        \<lparr>profile_name = PNone,
         Pennsieve = \<lparr>received = [Get (host_api @ ''/discover/search/files'') default_headers
                                    (files_params [])]\<rparr>\<rparr>) \<and>
   accepts files_names [] \<and>
   PList [file_a] \<noteq> PDict [(''totalCount'', PInt 1), (''files'', PList [file_a])] \<and>
   fst (list_files (answering (PDict [(''totalCount'', PInt 1), (''files'', PList [file_a])]))
          fresh_service [])
     = Inr (PList [file_a])"
proof -
  have run:
    "list_files (answering (PDict [(''totalCount'', PInt 1), (''files'', PList [file_a])]))
        fresh_service []
     = (Inr (PList [file_a]),
        \<lparr>profile_name = PNone,
         Pennsieve = \<lparr>received = [Get (host_api @ ''/discover/search/files'') default_headers
                                    (files_params [])]\<rparr>\<rparr>)"
    by (simp add: list_files_def accepts_def delegate_get_def delegate_call_def answering_def
        fresh_service_def)
  have acc: "accepts files_names []" by (simp add: accepts_def)
  from list_files_returns_files_entry
         [of "answering (PDict [(''totalCount'', PInt 1), (''files'', PList [file_a])])"
            fresh_service "[]" "PList [file_a]"
            "\<lparr>profile_name = PNone,
              Pennsieve = \<lparr>received = [Get (host_api @ ''/discover/search/files'')
                                         default_headers (files_params [])]\<rparr>\<rparr>"
            "[(''totalCount'', PInt 1), (''files'', PList [file_a])]" "[file_a]"] run acc
  show ?thesis by (simp add: answering_def)
qed

lemma datasets_params_spec: "datasets_params kw = spec_params datasets_names kw"
  by (simp add: datasets_params_def spec_params_def datasets_names_def spec_wire_key_def
      spec_default_def)

lemma files_params_spec: "files_params kw = spec_params files_names kw"
  by (simp add: files_params_def spec_params_def files_names_def spec_wire_key_def
      spec_default_def)

lemma records_params_spec: "records_params kw = spec_params records_names kw"
  by (simp add: records_params_def spec_params_def records_names_def spec_wire_key_def
      spec_default_def)

text \<open>A parameter has its default or a value written at the call.\<close>

lemma kwarg_cases: "kwarg kw k d = d \<or> kwarg kw k d \<in> snd ` set kw"
  by (auto simp: kwarg_def split: option.splits dest!: map_of_SomeD
      intro: image_eqI [where x = "(k, v)" for v])

lemma spec_params_None_string:
  assumes "PStr ''None'' \<in> snd ` set (spec_params names kw)"
  shows "PStr ''None'' \<in> snd ` set kw"
proof -
  from assms obtain k where "kwarg kw k (spec_default k) = PStr ''None''"
    by (auto simp: spec_params_def)
  moreover have "spec_default k \<noteq> PStr ''None''"
    by (simp add: spec_default_def)
  ultimately show ?thesis
    using kwarg_cases [of kw k "spec_default k"] by auto
qed

lemma spec_params_defaults:
  "spec_params names [] = spec_params names [(''limit'', PInt 10), (''offset'', PInt 0)]"
  by (simp add: spec_params_def kwarg_def spec_default_def)

lemma received_list_datasets:
  "accepts datasets_names kw \<Longrightarrow>
   received (Pennsieve (snd (list_datasets ag svc kw))) =
     received (Pennsieve svc) @
       [Get (host_api @ ''/discover/search/datasets'') default_headers (datasets_params kw)]"
  by (simp add: list_datasets_def delegate_get_def delegate_call_def)

lemma received_list_files:
  "accepts files_names kw \<Longrightarrow>
   received (Pennsieve (snd (list_files ag svc kw))) =
     received (Pennsieve svc) @
       [Get (host_api @ ''/discover/search/files'') default_headers (files_params kw)]"
  by (simp add: list_files_unfold)

lemma received_list_records:
  "accepts records_names kw \<Longrightarrow>
   received (Pennsieve (snd (list_records ag svc kw))) =
     received (Pennsieve svc) @
       [Get (host_api @ ''/discover/search/records'') default_headers (records_params kw)]"
  by (simp add: list_records_def delegate_get_def delegate_call_def)

text \<open>
  Claim C7: each of \<^verbatim>\<open>list_datasets\<close>, \<^verbatim>\<open>list_files\<close> and \<^verbatim>\<open>list_records\<close> hands
  the agent one GET whose parameter mapping is the one the specification describes: every
  declared parameter under its wire key (camelCase for the multi-word ones), with the
  value written at the call or else its default. The keys are exactly the wire keys. The
  string \<^verbatim>\<open>"None"\<close> is a value of the mapping only if the caller wrote it; an omitted
  filter is the value \<^verbatim>\<open>None\<close>. The mapping built with no argument at all is the one
  built with only \<^verbatim>\<open>limit=10, offset=0\<close> written, and with only \<^verbatim>\<open>limit\<close> and
  \<^verbatim>\<open>offset\<close> written every filter is \<^verbatim>\<open>None\<close>.
\<close>

theorem search_params_wire_keys:
  "(accepts datasets_names kw \<longrightarrow>
      received (Pennsieve (snd (list_datasets ag svc kw))) =
        received (Pennsieve svc) @
          [Get (host_api @ ''/discover/search/datasets'') default_headers
             (spec_params datasets_names kw)]) \<and>
   (accepts files_names kw \<longrightarrow>
      received (Pennsieve (snd (list_files ag svc kw))) =
        received (Pennsieve svc) @
          [Get (host_api @ ''/discover/search/files'') default_headers
             (spec_params files_names kw)]) \<and>
   (accepts records_names kw \<longrightarrow>
      received (Pennsieve (snd (list_records ag svc kw))) =
        received (Pennsieve svc) @
          [Get (host_api @ ''/discover/search/records'') default_headers
             (spec_params records_names kw)]) \<and>
   map fst (datasets_params kw) =
     [''limit'', ''offset'', ''query'', ''organization'', ''organizationId'', ''tags'',
      ''embargo'', ''orderBy'', ''orderDirection''] \<and>
   map fst (files_params kw) =
     [''limit'', ''offset'', ''fileType'', ''query'', ''organization'', ''organizationId'',
      ''datasetId''] \<and>
   map fst (records_params kw) =
     [''limit'', ''offset'', ''model'', ''organization'', ''datasetId''] \<and>
   (PStr ''None'' \<in> snd ` set (datasets_params kw) \<union> snd ` set (files_params kw)
                     \<union> snd ` set (records_params kw)
      \<longrightarrow> PStr ''None'' \<in> snd ` set kw) \<and>
   datasets_params [] = datasets_params [(''limit'', PInt 10), (''offset'', PInt 0)] \<and>
   files_params [] = files_params [(''limit'', PInt 10), (''offset'', PInt 0)] \<and>
   records_params [] = records_params [(''limit'', PInt 10), (''offset'', PInt 0)] \<and>
   datasets_params [(''limit'', l), (''offset'', off)] =
     [(''limit'', l), (''offset'', off), (''query'', PNone), (''organization'', PNone),
      (''organizationId'', PNone), (''tags'', PNone), (''embargo'', PNone),
      (''orderBy'', PNone), (''orderDirection'', PNone)] \<and>
   files_params [(''limit'', l), (''offset'', off)] =
     [(''limit'', l), (''offset'', off), (''fileType'', PNone), (''query'', PNone),
      (''organization'', PNone), (''organizationId'', PNone), (''datasetId'', PNone)] \<and>
   records_params [(''limit'', l), (''offset'', off)] =
     [(''limit'', l), (''offset'', off), (''model'', PNone), (''organization'', PNone),
      (''datasetId'', PNone)]"
proof -
  have a: "accepts datasets_names kw \<longrightarrow>
      received (Pennsieve (snd (list_datasets ag svc kw))) =
        received (Pennsieve svc) @
          [Get (host_api @ ''/discover/search/datasets'') default_headers
             (spec_params datasets_names kw)]"
    by (simp add: received_list_datasets datasets_params_spec)
  have b: "accepts files_names kw \<longrightarrow>
      received (Pennsieve (snd (list_files ag svc kw))) =
        received (Pennsieve svc) @
          [Get (host_api @ ''/discover/search/files'') default_headers
             (spec_params files_names kw)]"
    by (simp add: received_list_files files_params_spec)
  have c: "accepts records_names kw \<longrightarrow>
      received (Pennsieve (snd (list_records ag svc kw))) =
        received (Pennsieve svc) @
          [Get (host_api @ ''/discover/search/records'') default_headers
             (spec_params records_names kw)]"
    by (simp add: received_list_records records_params_spec)
  have d: "map fst (datasets_params kw) =
     [''limit'', ''offset'', ''query'', ''organization'', ''organizationId'', ''tags'',
      ''embargo'', ''orderBy'', ''orderDirection'']"
    by (simp add: datasets_params_def)
  have e: "map fst (files_params kw) =
     [''limit'', ''offset'', ''fileType'', ''query'', ''organization'', ''organizationId'',
      ''datasetId'']"
    by (simp add: files_params_def)
  have f: "map fst (records_params kw) =
     [''limit'', ''offset'', ''model'', ''organization'', ''datasetId'']"
    by (simp add: records_params_def)
  have g: "PStr ''None'' \<in> snd ` set (datasets_params kw) \<union> snd ` set (files_params kw)
                     \<union> snd ` set (records_params kw)
      \<longrightarrow> PStr ''None'' \<in> snd ` set kw"
    unfolding datasets_params_spec files_params_spec records_params_spec
    using spec_params_None_string by blast
  have h: "datasets_params [] = datasets_params [(''limit'', PInt 10), (''offset'', PInt 0)]"
    "files_params [] = files_params [(''limit'', PInt 10), (''offset'', PInt 0)]"
    "records_params [] = records_params [(''limit'', PInt 10), (''offset'', PInt 0)]"
    unfolding datasets_params_spec files_params_spec records_params_spec
    by (rule spec_params_defaults)+
  have i: "datasets_params [(''limit'', l), (''offset'', off)] =
     [(''limit'', l), (''offset'', off), (''query'', PNone), (''organization'', PNone),
      (''organizationId'', PNone), (''tags'', PNone), (''embargo'', PNone),
      (''orderBy'', PNone), (''orderDirection'', PNone)]"
    by (simp add: datasets_params_def kwarg_def)
  have j: "files_params [(''limit'', l), (''offset'', off)] =
     [(''limit'', l), (''offset'', off), (''fileType'', PNone), (''query'', PNone),
      (''organization'', PNone), (''organizationId'', PNone), (''datasetId'', PNone)]"
    by (simp add: files_params_def kwarg_def)
  have k: "records_params [(''limit'', l), (''offset'', off)] =
     [(''limit'', l), (''offset'', off), (''model'', PNone), (''organization'', PNone),
      (''datasetId'', PNone)]"
    by (simp add: records_params_def kwarg_def)
  from a b c d e f g h i j k show ?thesis by blast
qed

theorem search_params_wire_keys_witness:
  "accepts datasets_names [(''organization'', PStr ''None'')] \<and>
   accepts files_names [(''organization'', PStr ''None'')] \<and>
   accepts records_names [(''organization'', PStr ''None'')] \<and>
   PStr ''None'' \<in> snd ` set (datasets_params [(''organization'', PStr ''None'')]) \<and>
   PStr ''None'' \<in> snd ` set [(''organization'', PStr ''None'')] \<and>
   received (Pennsieve (snd (list_datasets (answering PNone) fresh_service
                               [(''organization'', PStr ''None'')]))) =
     [Get ''https://api.pennsieve.io/discover/search/datasets'' default_headers
        [(''limit'', PInt 10), (''offset'', PInt 0), (''query'', PNone),
         (''organization'', PStr ''None''), (''organizationId'', PNone), (''tags'', PNone),
         (''embargo'', PNone), (''orderBy'', PNone), (''orderDirection'', PNone)]] \<and>
   received (Pennsieve (snd (list_files (answering PNone) fresh_service
                               [(''organization'', PStr ''None'')]))) =
     [Get ''https://api.pennsieve.io/discover/search/files'' default_headers
        [(''limit'', PInt 10), (''offset'', PInt 0), (''fileType'', PNone), (''query'', PNone),
         (''organization'', PStr ''None''), (''organizationId'', PNone),
         (''datasetId'', PNone)]] \<and>
   received (Pennsieve (snd (list_records (answering PNone) fresh_service
                               [(''organization'', PStr ''None'')]))) =
     [Get ''https://api.pennsieve.io/discover/search/records'' default_headers
        [(''limit'', PInt 10), (''offset'', PInt 0), (''model'', PNone),
         (''organization'', PStr ''None''), (''datasetId'', PNone)]]"
proof -
  have acc: "accepts datasets_names [(''organization'', PStr ''None'')]"
    "accepts files_names [(''organization'', PStr ''None'')]"
    "accepts records_names [(''organization'', PStr ''None'')]"
    by (simp_all add: accepts_def datasets_names_def files_names_def records_names_def)
  have str: "PStr ''None'' \<in> snd ` set (datasets_params [(''organization'', PStr ''None'')])"
    by (simp add: datasets_params_def kwarg_def)
  have sp: "spec_params datasets_names [(''organization'', PStr ''None'')] =
        [(''limit'', PInt 10), (''offset'', PInt 0), (''query'', PNone),
         (''organization'', PStr ''None''), (''organizationId'', PNone), (''tags'', PNone),
         (''embargo'', PNone), (''orderBy'', PNone), (''orderDirection'', PNone)]"
    "spec_params files_names [(''organization'', PStr ''None'')] =
        [(''limit'', PInt 10), (''offset'', PInt 0), (''fileType'', PNone), (''query'', PNone),
         (''organization'', PStr ''None''), (''organizationId'', PNone),
         (''datasetId'', PNone)]"
    "spec_params records_names [(''organization'', PStr ''None'')] =
        [(''limit'', PInt 10), (''offset'', PInt 0), (''model'', PNone),
         (''organization'', PStr ''None''), (''datasetId'', PNone)]"
    by (simp_all add: spec_params_def datasets_names_def files_names_def records_names_def
        spec_wire_key_def spec_default_def kwarg_def)
  from search_params_wire_keys
         [of "[(''organization'', PStr ''None'')]" "answering PNone" fresh_service] acc str sp
  show ?thesis by (simp add: fresh_service_def host_api_def)
qed

section \<open>File names\<close>

lemma accepts_forwarded: "accepts files_names (forwarded kw)"
  by (simp add: accepts_def files_names_def forwarded_def)

lemma files_params_forwarded: "files_params (forwarded kw) = files_params kw"
  by (simp add: files_params_def forwarded_def kwarg_def)

lemma list_files_forwarded:
  "accepts files_names kw \<Longrightarrow> list_files ag svc (forwarded kw) = list_files ag svc kw"
  by (simp add: list_files_unfold accepts_forwarded files_params_forwarded)

lemma list_filenames_unfold:
  "accepts files_names kw \<Longrightarrow>
   list_filenames ag svc kw =
     (case list_files ag svc kw of
        (Inl e, svc') \<Rightarrow> (Inl e, svc')
      | (Inr response, svc') \<Rightarrow>
          (case py_iter response of
             Inl e \<Rightarrow> (Inl e, svc')
           | Inr xs \<Rightarrow>
               (case map_res filename_of xs of
                  Inl e \<Rightarrow> (Inl e, svc')
                | Inr ys \<Rightarrow> (Inr (PList ys), svc'))))"
  using list_files_forwarded [of kw ag svc]
  by (simp add: list_filenames_def)

lemma filename_of_Inr:
  "filename_of x = Inr y \<longleftrightarrow>
     (\<exists>u. getitem x ''uri'' = Inr (PStr u) \<and> y = PStr (uri_path u))"
  by (auto simp: filename_of_def split: sum.splits pyval.splits)

text \<open>
  Claim C10: for the same arguments (and the same agent, in the same state),
  whenever \<^verbatim>\<open>list_files\<close> returns a value with elements \<open>xs\<close> and
  \<^verbatim>\<open>list_filenames\<close> returns a value, that value is a list with one entry for each
  element of \<open>xs\<close>, in the same order, the entry at each position being the path derived
  from the \<^verbatim>\<open>uri\<close> field of the element at that position; the agent is left in the
  same state by both. When every element of \<open>xs\<close> has a string under \<^verbatim>\<open>uri\<close>,
  \<^verbatim>\<open>list_filenames\<close> does return a list.
\<close>

theorem list_filenames_maps_list_files:
  "(list_files ag svc kw = (Inr response, svc') \<and> py_iter response = Inr xs \<and>
    list_filenames ag svc kw = (Inr r, svc'')
      \<longrightarrow> svc'' = svc' \<and>
          (\<exists>ys. r = PList ys \<and> length ys = length xs \<and>
             (\<forall>i<length xs. \<exists>u. getitem (xs ! i) ''uri'' = Inr (PStr u) \<and>
                                 ys ! i = PStr (uri_path u)))) \<and>
   (list_files ag svc kw = (Inr response, svc') \<and> py_iter response = Inr xs \<and>
    (\<forall>x\<in>set xs. \<exists>u. getitem x ''uri'' = Inr (PStr u))
      \<longrightarrow> (\<exists>ys. list_filenames ag svc kw = (Inr (PList ys), svc')))"
proof (rule conjI; rule impI)
  assume h: "list_files ag svc kw = (Inr response, svc') \<and> py_iter response = Inr xs \<and>
    list_filenames ag svc kw = (Inr r, svc'')"
  then have acc: "accepts files_names kw"
    by (auto simp: list_files_def split: if_splits)
  from h obtain ys where ys: "map_res filename_of xs = Inr ys"
    and r: "r = PList ys" "svc'' = svc'"
    by (auto simp: list_filenames_unfold [OF acc] split: sum.splits)
  from ys have "length ys = length xs"
    and "\<forall>i<length xs. filename_of (xs ! i) = Inr (ys ! i)"
    by (simp_all add: map_res_Inr_iff)
  then show "svc'' = svc' \<and>
          (\<exists>ys. r = PList ys \<and> length ys = length xs \<and>
             (\<forall>i<length xs. \<exists>u. getitem (xs ! i) ''uri'' = Inr (PStr u) \<and>
                                 ys ! i = PStr (uri_path u)))"
    using r by (auto simp: filename_of_Inr)
next
  assume h: "list_files ag svc kw = (Inr response, svc') \<and> py_iter response = Inr xs \<and>
    (\<forall>x\<in>set xs. \<exists>u. getitem x ''uri'' = Inr (PStr u))"
  then have acc: "accepts files_names kw"
    by (auto simp: list_files_def split: if_splits)
  have "\<exists>y. filename_of x = Inr y" if "x \<in> set xs" for x
    using that h by (auto simp: filename_of_Inr)
  then obtain ys where "map_res filename_of xs = Inr ys"
    using map_res_total [of xs filename_of] by blast
  with h show "\<exists>ys. list_filenames ag svc kw = (Inr (PList ys), svc')"
    by (simp add: list_filenames_unfold [OF acc])
qed

theorem list_filenames_maps_list_files_witness:
  "list_files (answering (PDict [(''files'', PList [file_a, file_c])])) fresh_service []
     = (Inr (PList [file_a, file_c]),
        snd (list_files (answering (PDict [(''files'', PList [file_a, file_c])]))
               fresh_service [])) \<and>
   py_iter (PList [file_a, file_c]) = Inr [file_a, file_c] \<and>
   getitem file_a ''uri'' = Inr (PStr ''s3://bucket/11/2/files/docs/a.csv'') \<and>
   getitem file_c ''uri'' = Inr (PStr ''s3://bucket/11/3/files/docs/b.csv'') \<and>
   list_filenames (answering (PDict [(''files'', PList [file_a, file_c])])) fresh_service []
     = (Inr (PList [PStr ''files/docs/a.csv'', PStr ''files/docs/b.csv'']),
        snd (list_files (answering (PDict [(''files'', PList [file_a, file_c])]))
               fresh_service [])) \<and>
   (\<exists>ys. PList [PStr ''files/docs/a.csv'', PStr ''files/docs/b.csv''] = PList ys \<and>
         length ys = length [file_a, file_c] \<and>
         (\<forall>i<length [file_a, file_c].
            \<exists>u. getitem ([file_a, file_c] ! i) ''uri'' = Inr (PStr u) \<and>
                ys ! i = PStr (uri_path u)))"
proof -
  let ?ag = "answering (PDict [(''files'', PList [file_a, file_c])])"
  have lf: "list_files ?ag fresh_service [] =
      (Inr (PList [file_a, file_c]), snd (list_files ?ag fresh_service []))"
    by (simp add: list_files_def accepts_def delegate_get_def delegate_call_def answering_def)
  have it: "py_iter (PList [file_a, file_c]) = Inr [file_a, file_c]"
    by simp
  have uris: "\<forall>x\<in>set [file_a, file_c]. \<exists>u. getitem x ''uri'' = Inr (PStr u)"
    by (simp add: file_a_def file_c_def)
  have ln: "list_filenames ?ag fresh_service [] =
      (Inr (PList [PStr ''files/docs/a.csv'', PStr ''files/docs/b.csv'']),
       snd (list_files ?ag fresh_service []))"
    by (simp add: list_filenames_def list_files_def accepts_def files_names_def forwarded_def
        delegate_get_def delegate_call_def answering_def filename_of_def file_a_def
        file_c_def uri_path_def kwarg_def files_params_def)
  from list_filenames_maps_list_files
         [of ?ag fresh_service "[]" "PList [file_a, file_c]"
            "snd (list_files ?ag fresh_service [])" "[file_a, file_c]"
            "PList [PStr ''files/docs/a.csv'', PStr ''files/docs/b.csv'']"
            "snd (list_files ?ag fresh_service [])"] lf it uris ln
  show ?thesis by (simp add: file_a_def file_c_def)
qed

end
